theory Spec2Isabelle
  imports Main "HOL-Library.AList"
begin

section \<open>JavaScript values and objects\<close>

text \<open>
  The store of \<^verbatim>\<open>src/index.js\<close> (and its variant \<^verbatim>\<open>src/unnamed/part_000\<close>) works on
  plain JavaScript objects. A value is one of the primitives, a function (named by a
  number), a plain object, or a reference to a reactive container made by \<^verbatim>\<open>add\<close>
  (an address in the store's heap, see below). Numbers are integers here: the code only
  tests them for truthiness.

  An object is the list of its own enumerable properties in the order of
  \<^verbatim>\<open>Object.entries\<close>, with property names that are not array indices (for which
  JavaScript would reorder the keys). Properties inherited from the built-in prototypes
  (\<^verbatim>\<open>toString\<close>, \<^verbatim>\<open>constructor\<close>, ...) are not represented.
\<close>

datatype jsval =
    VUndef
  | VNull
  | VBool bool
  | VNum int
  | VStr string
  | VFun nat
  | VObj "(string \<times> jsval) list"
  | VRef nat

type_synonym obj = "(string \<times> jsval) list"

text \<open>The errors a call can end with: a \<^verbatim>\<open>TypeError\<close> of the runtime, an exception
  thrown by a module factory, and a property read that this development does not
  represent (the own properties of strings and functions, the members of a framework
  instance).\<close>

datatype error = TypeError | Thrown jsval | Unmodelled

text \<open>JavaScript truthiness, as tested by \<^verbatim>\<open>if (state[key])\<close>, \<^verbatim>\<open>if (this[name])\<close> and
  \<^verbatim>\<open>||\<close>.\<close>

fun truthy :: "jsval \<Rightarrow> bool" where
  "truthy VUndef = False"
| "truthy VNull = False"
| "truthy (VBool b) = b"
| "truthy (VNum n) = (n \<noteq> 0)"
| "truthy (VStr s) = (s \<noteq> [])"
| "truthy (VFun f) = True"
| "truthy (VObj ps) = True"
| "truthy (VRef a) = True"

text \<open>\<^verbatim>\<open>lodash/isFunction\<close>.\<close>

fun isFunction :: "jsval \<Rightarrow> bool" where
  "isFunction (VFun f) = True"
| "isFunction v = False"

text \<open>Reading an own property of an object: \<^verbatim>\<open>undefined\<close> when the key is absent.\<close>

definition obj_get :: "obj \<Rightarrow> string \<Rightarrow> jsval" where
  "obj_get ps key = (case map_of ps key of Some v \<Rightarrow> v | None \<Rightarrow> VUndef)"

text \<open>The property read \<^verbatim>\<open>v[key]\<close> on an arbitrary value: a \<^verbatim>\<open>TypeError\<close> on
  \<^verbatim>\<open>null\<close> and \<^verbatim>\<open>undefined\<close>, the own property of an object, \<^verbatim>\<open>undefined\<close> on
  a number or a boolean.\<close>

fun js_get :: "jsval \<Rightarrow> string \<Rightarrow> error + jsval" where
  "js_get VUndef key = Inl TypeError"
| "js_get VNull key = Inl TypeError"
| "js_get (VObj ps) key = Inr (obj_get ps key)"
| "js_get (VBool b) key = Inr VUndef"
| "js_get (VNum n) key = Inr VUndef"
| "js_get (VStr s) key = Inl Unmodelled"
| "js_get (VFun f) key = Inl Unmodelled"
| "js_get (VRef a) key = Inl Unmodelled"

section \<open>Definition objects\<close>

text \<open>
  A definition object is what the author passes to the constructor or returns from a
  module factory. Each own property is either a stored value or an accessor declared
  with \<^verbatim>\<open>get name() { ... }\<close>; \<^verbatim>\<open>Object.getOwnPropertyDescriptor(obj, key).get\<close> is a
  function exactly for the second kind. A getter is a function of the current plain
  field values of the object it is read on; getters are taken to be pure and not to
  throw.
\<close>

type_synonym getter = "obj \<Rightarrow> jsval"

datatype defprop = Stored jsval | Accessor getter

type_synonym defobj = "(string \<times> defprop) list"

text \<open>The stored values of a definition, which a getter of the definition reads.\<close>

fun stored_values :: "defobj \<Rightarrow> obj" where
  "stored_values [] = []"
| "stored_values ((key, Stored v) # rest) = (key, v) # stored_values rest"
| "stored_values ((key, Accessor g) # rest) = stored_values rest"

text \<open>The property read \<^verbatim>\<open>obj.watch\<close> on a definition: a stored value is returned, an
  accessor is called, an absent key gives \<^verbatim>\<open>undefined\<close>.\<close>

definition def_get :: "defobj \<Rightarrow> string \<Rightarrow> jsval" where
  "def_get d key =
     (case map_of d key of
        None \<Rightarrow> VUndef
      | Some (Stored v) \<Rightarrow> v
      | Some (Accessor g) \<Rightarrow> g (stored_values d))"

section \<open>The partition: \<^verbatim>\<open>separate\<close>\<close>

subsection \<open>\<^verbatim>\<open>src/index.js\<close>\<close>

text \<open>The object \<^verbatim>\<open>{ computed, data, watch }\<close> that \<^verbatim>\<open>separate\<close> returns.\<close>

record parts =
  computed :: "(string \<times> getter) list"
  data :: obj
  watch :: jsval

text \<open>
  The body of the \<^verbatim>\<open>forEach\<close> callback of \<^verbatim>\<open>separate\<close>, for one entry of
  \<^verbatim>\<open>Object.entries(obj)\<close>. The assignments \<^verbatim>\<open>computed[key] = ...\<close> and
  \<^verbatim>\<open>data[key] = ...\<close> are \<^const>\<open>AList.update\<close>: the value is replaced in place when the
  key exists and appended otherwise. \<^verbatim>\<open>state[key]\<close> can raise (on \<^verbatim>\<open>null\<close>), which
  ends the loop.
\<close>

fun separate_entry :: "jsval \<Rightarrow> parts \<Rightarrow> string \<times> defprop \<Rightarrow> error + parts" where
  "separate_entry state acc (key, p) =
     (if key = ''watch'' then Inr acc
      else case p of
        Accessor g \<Rightarrow> Inr (acc\<lparr>computed := AList.update key g (computed acc)\<rparr>)
      | Stored val \<Rightarrow>
          (case js_get state key of
             Inl e \<Rightarrow> Inl e
           | Inr sv \<Rightarrow>
               if truthy sv then Inr (acc\<lparr>data := AList.update key sv (data acc)\<rparr>)
               else Inr (acc\<lparr>data := AList.update key val (data acc)\<rparr>)))"

fun separate_loop :: "jsval \<Rightarrow> defobj \<Rightarrow> parts \<Rightarrow> error + parts" where
  "separate_loop state [] acc = Inr acc"
| "separate_loop state (e # rest) acc =
     (case separate_entry state acc e of
        Inl err \<Rightarrow> Inl err
      | Inr acc' \<Rightarrow> separate_loop state rest acc')"

text \<open>The default parameter \<^verbatim>\<open>state = {}\<close>: only \<^verbatim>\<open>undefined\<close> is replaced.\<close>

definition default_state :: "jsval \<Rightarrow> jsval" where
  "default_state state = (if state = VUndef then VObj [] else state)"

definition separate :: "defobj \<Rightarrow> jsval \<Rightarrow> error + parts" where
  "separate obj state =
     separate_loop (default_state state) obj
       \<lparr>computed = [], data = [], watch = def_get obj ''watch''\<rparr>"

subsection \<open>\<^verbatim>\<open>src/unnamed/part_000\<close>\<close>

text \<open>The variant returns \<^verbatim>\<open>{ computed, data }\<close> and has no test on the key.\<close>

record parts_000 =
  computed_000 :: "(string \<times> getter) list"
  data_000 :: obj

fun separate_entry_000 :: "jsval \<Rightarrow> parts_000 \<Rightarrow> string \<times> defprop \<Rightarrow> error + parts_000" where
  "separate_entry_000 state acc (key, p) =
     (case p of
        Accessor g \<Rightarrow> Inr (acc\<lparr>computed_000 := AList.update key g (computed_000 acc)\<rparr>)
      | Stored val \<Rightarrow>
          (case js_get state key of
             Inl e \<Rightarrow> Inl e
           | Inr sv \<Rightarrow>
               if truthy sv then Inr (acc\<lparr>data_000 := AList.update key sv (data_000 acc)\<rparr>)
               else Inr (acc\<lparr>data_000 := AList.update key val (data_000 acc)\<rparr>)))"

fun separate_loop_000 :: "jsval \<Rightarrow> defobj \<Rightarrow> parts_000 \<Rightarrow> error + parts_000" where
  "separate_loop_000 state [] acc = Inr acc"
| "separate_loop_000 state (e # rest) acc =
     (case separate_entry_000 state acc e of
        Inl err \<Rightarrow> Inl err
      | Inr acc' \<Rightarrow> separate_loop_000 state rest acc')"

definition separate_000 :: "defobj \<Rightarrow> jsval \<Rightarrow> error + parts_000" where
  "separate_000 obj state =
     separate_loop_000 (default_state state) obj \<lparr>computed_000 = [], data_000 = []\<rparr>"

section \<open>Containers and the store\<close>

text \<open>
  \<^verbatim>\<open>add\<close> wraps the partitioned definition of a module either in a framework instance
  (\<^verbatim>\<open>new Vue({ data, computed, ... })\<close>) or in a plain observable object
  (\<^verbatim>\<open>Vue.observable(data)\<close>). Both are objects with identity: the root property and the
  registry entry written by \<^verbatim>\<open>add\<close> are the same object, so containers live in a heap
  and \<^const>\<open>VRef\<close> is their address. The third component of an instance is the option
  passed beside \<^verbatim>\<open>data\<close> and \<^verbatim>\<open>computed\<close>: \<^verbatim>\<open>watch\<close> in \<^verbatim>\<open>src/index.js\<close>,
  \<^verbatim>\<open>created\<close> in the variant.
\<close>

datatype container =
    VueInstance obj "(string \<times> getter) list" jsval
  | Observable obj

text \<open>
  The root store: the closure variables of the constructor (\<^verbatim>\<open>state\<close>, and
  \<^verbatim>\<open>context\<close> in the variant), the root instance (\<^verbatim>\<open>$data\<close>, the getters passed as
  \<^verbatim>\<open>computed\<close>, the \<^verbatim>\<open>watch\<close> option and its other own properties: the ones created
  by an assignment \<^verbatim>\<open>this[name] = ...\<close> and the framework's own members),
  \<^verbatim>\<open>storeFactory.modules\<close>, the heap of containers and the lines written by
  \<^verbatim>\<open>console.warn\<close>.
\<close>

record store =
  overrides :: jsval
  ctx :: jsval
  rdata :: obj
  rcomputed :: "(string \<times> getter) list"
  rwatch :: jsval
  props :: obj
  modules :: obj
  heap :: "container list"
  warnings :: "string list"

section \<open>The aggregate: \<^verbatim>\<open>state\<close>\<close>

text \<open>\<^verbatim>\<open>fromPairs\<close>: the \<^verbatim>\<open>reduce\<close> of \<^verbatim>\<open>src/index.js\<close>, and \<^verbatim>\<open>lodash/fromPairs\<close> in the
  variant; a later pair with the same key replaces the value of the earlier one.\<close>

definition fromPairs :: "(string \<times> jsval) list \<Rightarrow> obj" where
  "fromPairs arr = foldl (\<lambda>obj (key, val). AList.update key val obj) [] arr"

text \<open>\<^verbatim>\<open>Object.assign(target, source)\<close>.\<close>

definition assign :: "obj \<Rightarrow> obj \<Rightarrow> obj" where
  "assign target source = foldl (\<lambda>obj (key, val). AList.update key val obj) target source"

text \<open>\<^verbatim>\<open>Object.entries\<close> of a value: it raises on \<^verbatim>\<open>null\<close> and \<^verbatim>\<open>undefined\<close>, and a
  number, a boolean, a function and the empty string have no entries. An observable
  container is its data object.\<close>

fun entries :: "container list \<Rightarrow> jsval \<Rightarrow> error + obj" where
  "entries h VUndef = Inl TypeError"
| "entries h VNull = Inl TypeError"
| "entries h (VObj ps) = Inr ps"
| "entries h (VBool b) = Inr []"
| "entries h (VNum n) = Inr []"
| "entries h (VFun f) = Inr []"
| "entries h (VStr s) = (if s = [] then Inr [] else Inl Unmodelled)"
| "entries h (VRef a) =
     (if a < length h then
        (case h ! a of
           Observable d \<Rightarrow> Inr d
         | VueInstance d c w \<Rightarrow> Inl Unmodelled)
      else Inl Unmodelled)"

definition filterFunctions :: "container list \<Rightarrow> jsval \<Rightarrow> error + obj" where
  "filterFunctions h v =
     (case entries h v of
        Inl e \<Rightarrow> Inl e
      | Inr es \<Rightarrow> Inr (fromPairs (filter (\<lambda>(key, val). \<not> isFunction val) es)))"

text \<open>The property read \<^verbatim>\<open>module.$data\<close>: the data object of an instance; on an
  observable container and on a plain object an own property like any other.\<close>

fun dollar_data :: "container list \<Rightarrow> jsval \<Rightarrow> error + jsval" where
  "dollar_data h VUndef = Inl TypeError"
| "dollar_data h VNull = Inl TypeError"
| "dollar_data h (VObj ps) = Inr (obj_get ps ''$data'')"
| "dollar_data h (VBool b) = Inr VUndef"
| "dollar_data h (VNum n) = Inr VUndef"
| "dollar_data h (VFun f) = Inr VUndef"
| "dollar_data h (VStr s) = Inr VUndef"
| "dollar_data h (VRef a) =
     (if a < length h then
        (case h ! a of
           VueInstance d c w \<Rightarrow> Inr (VObj d)
         | Observable d \<Rightarrow> Inr (obj_get d ''$data''))
      else Inl Unmodelled)"

text \<open>\<^verbatim>\<open>filterFunctions(module.$data || module)\<close>.\<close>

definition module_view :: "container list \<Rightarrow> jsval \<Rightarrow> error + obj" where
  "module_view h module =
     (case dollar_data h module of
        Inl e \<Rightarrow> Inl e
      | Inr d \<Rightarrow> filterFunctions h (if truthy d then d else module))"

text \<open>The \<^verbatim>\<open>map\<close> over \<^verbatim>\<open>Object.entries(storeFactory.modules)\<close>.\<close>

fun module_entries :: "container list \<Rightarrow> obj \<Rightarrow> error + obj" where
  "module_entries h [] = Inr []"
| "module_entries h ((name, module) # rest) =
     (case module_view h module of
        Inl e \<Rightarrow> Inl e
      | Inr f \<Rightarrow>
          (case module_entries h rest of
             Inl e \<Rightarrow> Inl e
           | Inr ps \<Rightarrow> Inr ((name, VObj f) # ps)))"

definition state :: "store \<Rightarrow> error + obj" where
  "state st =
     (case filterFunctions (heap st) (VObj (rdata st)) of
        Inl e \<Rightarrow> Inl e
      | Inr root \<Rightarrow>
          (case module_entries (heap st) (modules st) of
             Inl e \<Rightarrow> Inl e
           | Inr ps \<Rightarrow> Inr (assign root (fromPairs ps))))"

section \<open>Properties of the root instance\<close>

text \<open>
  The framework does not proxy a data key that starts with \<^verbatim>\<open>$\<close> or \<^verbatim>\<open>_\<close>
  (\<^verbatim>\<open>isReserved\<close> in Vue 2).
\<close>

definition isReserved :: "string \<Rightarrow> bool" where
  "isReserved key = (case key of [] \<Rightarrow> False | c # cs \<Rightarrow> c = CHR ''$'' \<or> c = CHR ''_'')"

text \<open>
  The property read \<^verbatim>\<open>this[name]\<close> on the root instance. A plain own property is
  found first, then a proxied data field; the method \<^verbatim>\<open>add\<close> and the computed
  \<^verbatim>\<open>state\<close> come before the getters of the definition, since the framework defines
  methods before computed properties and \<^verbatim>\<open>Object.assign(computed, { state })\<close>
  replaces a getter named \<^verbatim>\<open>state\<close>. A computed property is evaluated on the current
  data.
\<close>

definition root_get :: "store \<Rightarrow> string \<Rightarrow> error + jsval" where
  "root_get st name =
     (case map_of (props st) name of
        Some v \<Rightarrow> Inr v
      | None \<Rightarrow>
          (case (if isReserved name then None else map_of (rdata st) name) of
             Some v \<Rightarrow> Inr v
           | None \<Rightarrow>
               if name = ''add'' then Inr (VFun 0)
               else if name = ''state'' then
                 (case state st of Inl e \<Rightarrow> Inl e | Inr s \<Rightarrow> Inr (VObj s))
               else
                 (case map_of (rcomputed st) name of
                    Some g \<Rightarrow> Inr (g (rdata st))
                  | None \<Rightarrow> Inr VUndef)))"

text \<open>
  The assignment \<^verbatim>\<open>this[name] = v\<close> on the root instance: a plain own property and a
  proxied data field are written; a computed property has no setter and keeps its
  getter; any other name becomes a plain own property.
\<close>

definition root_set :: "store \<Rightarrow> string \<Rightarrow> jsval \<Rightarrow> store" where
  "root_set st name v =
     (if map_of (props st) name \<noteq> None then st\<lparr>props := AList.update name v (props st)\<rparr>
      else if \<not> isReserved name \<and> map_of (rdata st) name \<noteq> None
        then st\<lparr>rdata := AList.update name v (rdata st)\<rparr>
      else if name \<noteq> ''add'' \<and> (name = ''state'' \<or> map_of (rcomputed st) name \<noteq> None)
        then st
      else st\<lparr>props := AList.update name v (props st)\<rparr>)"

section \<open>The constructor and \<^verbatim>\<open>add\<close>\<close>

text \<open>A module factory is called with the root instance and returns the definition
  of the module, or throws.\<close>

type_synonym factory = "store \<Rightarrow> error + defobj"

definition warning :: "string \<Rightarrow> string" where
  "warning name = ''Module with name '' @ name @ '' already added!''"

text \<open>The last two statements of \<^verbatim>\<open>add\<close>: \<^verbatim>\<open>this[name] = <the new container>\<close> and
  \<^verbatim>\<open>storeFactory.modules[name] = this[name]\<close>, which reads the property back.\<close>

definition attach :: "store \<Rightarrow> string \<Rightarrow> container \<Rightarrow> error option \<times> store" where
  "attach st name c =
     (let a = length (heap st);
          st1 = root_set (st\<lparr>heap := heap st @ [c]\<rparr>) name (VRef a)
      in case root_get st1 name of
           Inl e \<Rightarrow> (Some e, st1)
         | Inr v \<Rightarrow> (None, st1\<lparr>modules := AList.update name v (modules st1)\<rparr>))"

subsection \<open>\<^verbatim>\<open>src/index.js\<close>\<close>

definition StoreFactory :: "defobj \<Rightarrow> jsval \<Rightarrow> error + store" where
  "StoreFactory base state0 =
     (let state = default_state state0
      in case separate base state of
           Inl e \<Rightarrow> Inl e
         | Inr p \<Rightarrow>
             Inr \<lparr>overrides = state, ctx = VUndef, rdata = data p,
                  rcomputed = computed p, rwatch = watch p, props = [], modules = [],
                  heap = [], warnings = []\<rparr>)"

definition build :: "parts \<Rightarrow> container" where
  "build p =
     (if length (computed p) \<noteq> 0 then VueInstance (data p) (computed p) (watch p)
      else Observable (data p))"

text \<open>The single-name form of \<^verbatim>\<open>add\<close>. The result is the exception raised, if any, and
  the store as the call leaves it.\<close>

definition add_single :: "store \<Rightarrow> string \<Rightarrow> factory \<Rightarrow> error option \<times> store" where
  "add_single st name module =
     (case root_get st name of
        Inl e \<Rightarrow> (Some e, st)
      | Inr cur \<Rightarrow>
          if truthy cur then (None, st\<lparr>warnings := warnings st @ [warning name]\<rparr>)
          else
            (case module st of
               Inl e \<Rightarrow> (Some e, st)
             | Inr obj \<Rightarrow>
                 (case js_get (overrides st) name of
                    Inl e \<Rightarrow> (Some e, st)
                  | Inr sub \<Rightarrow>
                      (case separate obj sub of
                         Inl e \<Rightarrow> (Some e, st)
                       | Inr p \<Rightarrow> attach st name (build p)))))"

text \<open>The first argument of \<^verbatim>\<open>add\<close>: a name (with the factory as second argument), or
  an object of factories.\<close>

datatype add_arg = Name string factory | Modules "(string \<times> factory) list"

text \<open>The \<^verbatim>\<open>forEach\<close> of the bulk form: an exception of one call ends the loop.\<close>

fun add_entries :: "store \<Rightarrow> (string \<times> factory) list \<Rightarrow> error option \<times> store" where
  "add_entries st [] = (None, st)"
| "add_entries st ((name, module) # rest) =
     (case add_single st name module of
        (Some e, st') \<Rightarrow> (Some e, st')
      | (None, st') \<Rightarrow> add_entries st' rest)"

fun add :: "store \<Rightarrow> add_arg \<Rightarrow> error option \<times> store" where
  "add st (Modules ms) = add_entries st ms"
| "add st (Name name module) = add_single st name module"

subsection \<open>\<^verbatim>\<open>src/unnamed/part_000\<close>\<close>


definition build_000 :: "parts_000 \<Rightarrow> container" where
  "build_000 p =
     (if length (computed_000 p) \<noteq> 0 \<or> truthy (obj_get (data_000 p) ''created'')
      then VueInstance (data_000 p) (computed_000 p) (obj_get (data_000 p) ''created'')
      else Observable (data_000 p))"

definition add_single_000 :: "store \<Rightarrow> string \<Rightarrow> factory \<Rightarrow> error option \<times> store" where
  "add_single_000 st name module =
     (case root_get st name of
        Inl e \<Rightarrow> (Some e, st)
      | Inr cur \<Rightarrow>
          if truthy cur then (None, st\<lparr>warnings := warnings st @ [warning name]\<rparr>)
          else
            (case module st of
               Inl e \<Rightarrow> (Some e, st)
             | Inr obj \<Rightarrow>
                 (case js_get (overrides st) name of
                    Inl e \<Rightarrow> (Some e, st)
                  | Inr sub \<Rightarrow>
                      (case separate_000 obj sub of
                         Inl e \<Rightarrow> (Some e, st)
                       | Inr p \<Rightarrow> attach st name (build_000 p)))))"

fun add_entries_000 :: "store \<Rightarrow> (string \<times> factory) list \<Rightarrow> error option \<times> store" where
  "add_entries_000 st [] = (None, st)"
| "add_entries_000 st ((name, module) # rest) =
     (case add_single_000 st name module of
        (Some e, st') \<Rightarrow> (Some e, st')
      | (None, st') \<Rightarrow> add_entries_000 st' rest)"

fun add_000 :: "store \<Rightarrow> add_arg \<Rightarrow> error option \<times> store" where
  "add_000 st (Modules ms) = add_entries_000 st ms"
| "add_000 st (Name name module) = add_single_000 st name module"

section \<open>Auxiliary notions for the statements\<close>

text \<open>The initial value of a plain field: the override when \<^verbatim>\<open>state[key]\<close> is truthy,
  the value of the definition otherwise.\<close>

definition chosen :: "jsval \<Rightarrow> string \<Rightarrow> jsval \<Rightarrow> jsval" where
  "chosen s key val =
     (case js_get s key of Inr sv \<Rightarrow> if truthy sv then sv else val | Inl e \<Rightarrow> val)"

text \<open>The two mappings that both variants of \<^verbatim>\<open>separate\<close> return, or the error.\<close>

definition outputs :: "error + parts \<Rightarrow> error + (string \<times> getter) list \<times> obj" where
  "outputs r = (case r of Inl e \<Rightarrow> Inl e | Inr p \<Rightarrow> Inr (computed p, data p))"

definition outputs_000 :: "error + parts_000 \<Rightarrow> error + (string \<times> getter) list \<times> obj" where
  "outputs_000 r = (case r of Inl e \<Rightarrow> Inl e | Inr p \<Rightarrow> Inr (computed_000 p, data_000 p))"

text \<open>The factory \<^verbatim>\<open>() => d\<close>, which ignores the root instance.\<close>

definition returning :: "defobj \<Rightarrow> factory" where
  "returning d st = Inr d"

text \<open>
  The reading of the bulk form that the specification gives: the single-name form is
  called once per entry, in entry order, and an entry that raises ends the sequence
  with the store as that call left it. The first argument is the single-name form of
  either variant.
\<close>

definition once_per_entry ::
  "(store \<Rightarrow> string \<Rightarrow> factory \<Rightarrow> error option \<times> store) \<Rightarrow>
   store \<Rightarrow> (string \<times> factory) list \<Rightarrow> error option \<times> store" where
  "once_per_entry single st ms =
     foldl (\<lambda>(raised, s) (name, module).
              case raised of Some e \<Rightarrow> (Some e, s) | None \<Rightarrow> single s name module)
           (None, st) ms"



text \<open>Whether \<^verbatim>\<open>this[name]\<close> on the root is answered without evaluating the computed
  \<^verbatim>\<open>state\<close>.\<close>

definition plain_name :: "store \<Rightarrow> string \<Rightarrow> bool" where
  "plain_name st name \<longleftrightarrow>
     map_of (props st) name \<noteq> None \<or>
     (\<not> isReserved name \<and> map_of (rdata st) name \<noteq> None) \<or>
     name \<noteq> ''state''"

section \<open>Verification\<close>

subsection \<open>The partition loop\<close>



lemma separate_loop_watch:
  "separate_loop s d acc = Inr p \<Longrightarrow> watch p = watch acc"
  by (induction d arbitrary: acc)
     (auto split: sum.splits defprop.splits if_splits prod.splits)




lemma separate_loop_skips_watch:
  "separate_loop s d acc = Inr p \<Longrightarrow>
   map_of (computed p) ''watch'' = map_of (computed acc) ''watch'' \<and>
   map_of (data p) ''watch'' = map_of (data acc) ''watch''"
proof (induction d arbitrary: acc)
  case Nil
  then show ?case by simp
next
  case (Cons e d)
  obtain k0 p0 where e: "e = (k0, p0)" by (cases e)
  from Cons.prems obtain acc' where
    s1: "separate_entry s acc (k0, p0) = Inr acc'" and s2: "separate_loop s d acc' = Inr p"
    by (auto simp: e split: sum.splits)
  from s1 have "map_of (computed acc') ''watch'' = map_of (computed acc) ''watch'' \<and>
      map_of (data acc') ''watch'' = map_of (data acc) ''watch''"
    by (auto simp: update_conv' split: defprop.splits sum.splits if_splits)
  with Cons.IH [OF s2] show ?case by simp
qed


lemma separate_loop_000_data:
  "separate_loop_000 s d acc = Inr p \<Longrightarrow> distinct (map fst d) \<Longrightarrow>
   map_of (data_000 p) k =
     (case map_of d k of
        Some (Stored v) \<Rightarrow> Some (chosen s k v)
      | _ \<Rightarrow> map_of (data_000 acc) k)"
proof (induction d arbitrary: acc)
  case Nil
  then show ?case by simp
next
  case (Cons e d)
  obtain k0 p0 where e: "e = (k0, p0)" by (cases e)
  from Cons.prems obtain acc' where
    s1: "separate_entry_000 s acc (k0, p0) = Inr acc'" and s2: "separate_loop_000 s d acc' = Inr p"
    by (auto simp: e split: sum.splits)
  have d: "distinct (map fst d)" and k0: "map_of d k0 = None"
    using Cons.prems(2) by (auto simp: e map_of_eq_None_iff)
  note IH = Cons.IH [OF s2 d]
  show ?case
  proof (cases "k = k0")
    case True
    with s1 IH k0 show ?thesis
      by (auto simp: e chosen_def update_conv' split: defprop.splits sum.splits if_splits)
  next
    case False
    with s1 IH show ?thesis
      by (auto simp: e update_conv' split: defprop.splits sum.splits if_splits option.splits)
  qed
qed



lemma separate_loops_agree:
  "''watch'' \<notin> fst ` set d \<Longrightarrow> computed acc = computed_000 acc0 \<Longrightarrow> data acc = data_000 acc0 \<Longrightarrow>
   outputs (separate_loop s d acc) = outputs_000 (separate_loop_000 s d acc0)"
proof (induction d arbitrary: acc acc0)
  case Nil
  then show ?case by (simp add: outputs_def outputs_000_def)
next
  case (Cons e d)
  obtain k0 p0 where e: "e = (k0, p0)" by (cases e)
  have nw: "k0 \<noteq> ''watch''" and rest: "''watch'' \<notin> fst ` set d"
    using Cons.prems(1) by (auto simp: e)
  show ?case
  proof (cases "separate_entry s acc (k0, p0)")
    case (Inl err)
    then have "separate_entry_000 s acc0 (k0, p0) = Inl err"
      using nw by (auto split: defprop.splits sum.splits if_splits)
    with Inl show ?thesis by (simp add: e outputs_def outputs_000_def)
  next
    case (Inr acc')
    then obtain acc0' where a0: "separate_entry_000 s acc0 (k0, p0) = Inr acc0'"
      and c: "computed acc' = computed_000 acc0'" and dd: "data acc' = data_000 acc0'"
      using nw Cons.prems(2,3) by (auto split: defprop.splits sum.splits if_splits)
    from Cons.IH [OF rest c dd] Inr a0 show ?thesis by (simp add: e)
  qed
qed





lemma chosen_obj: "chosen (VObj ov) k v = (if truthy (obj_get ov k) then obj_get ov k else v)"
  by (simp add: chosen_def)

subsection \<open>Claims about the partition\<close>

text \<open>
  C8. The two variants implement the same partition: on a definition without an own
  \<^verbatim>\<open>watch\<close> key, \<^verbatim>\<open>separate\<close> of \<^verbatim>\<open>src/index.js\<close> and \<^verbatim>\<open>separate\<close> of
  \<^verbatim>\<open>src/unnamed/part_000\<close> return the same derived-field mapping and the same
  plain-field mapping for the same arguments (or raise the same error).
\<close>

theorem separate_variants_agree:
  assumes "''watch'' \<notin> fst ` set obj"
  shows "outputs (separate obj s) = outputs_000 (separate_000 obj s)"
  unfolding separate_def separate_000_def
  by (rule separate_loops_agree [OF assms]) simp_all

theorem separate_variants_agree_witness:
  "''watch'' \<notin> fst ` set [(''a'', Stored (VNum 1)), (''b'', Accessor (\<lambda>d. obj_get d ''a''))] \<and>
   outputs (separate [(''a'', Stored (VNum 1)), (''b'', Accessor (\<lambda>d. obj_get d ''a''))]
              (VObj [(''a'', VNum 5)])) =
   outputs_000 (separate_000 [(''a'', Stored (VNum 1)), (''b'', Accessor (\<lambda>d. obj_get d ''a''))]
              (VObj [(''a'', VNum 5)])) \<and>
   outputs (separate [(''a'', Stored (VNum 1)), (''b'', Accessor (\<lambda>d. obj_get d ''a''))]
              (VObj [(''a'', VNum 5)])) =
   Inr ([(''b'', \<lambda>d. obj_get d ''a'')], [(''a'', VNum 5)])"
  using separate_variants_agree
    [of "[(''a'', Stored (VNum 1)), (''b'', Accessor (\<lambda>d. obj_get d ''a''))]" "VObj [(''a'', VNum 5)]"]
  by (simp add: separate_def default_state_def obj_get_def outputs_def)





text \<open>
  C3. In \<^verbatim>\<open>src/index.js\<close>, \<^verbatim>\<open>separate\<close> returns the value of the \<^verbatim>\<open>watch\<close> key on its
  own and skips the key in the loop, so \<^verbatim>\<open>watch\<close> is neither a plain field nor a
  derived field of the result, of the root instance or of a module container. The
  variant has no such test: there a stored \<^verbatim>\<open>watch\<close> key becomes a plain field like
  any other key.
\<close>

theorem separate_excludes_watch:
  assumes "separate obj s = Inr r"
  shows "watch r = def_get obj ''watch'' \<and>
         map_of (data r) ''watch'' = None \<and> map_of (computed r) ''watch'' = None \<and>
         (case build r of
            VueInstance d c w \<Rightarrow>
              map_of d ''watch'' = None \<and> map_of c ''watch'' = None \<and> w = def_get obj ''watch''
          | Observable d \<Rightarrow> map_of d ''watch'' = None) \<and>
         (\<forall>st. StoreFactory obj s = Inr st \<longrightarrow>
            rwatch st = def_get obj ''watch'' \<and>
            map_of (rdata st) ''watch'' = None \<and> map_of (rcomputed st) ''watch'' = None) \<and>
         (\<forall>r0 v. distinct (map fst obj) \<and> (''watch'', Stored v) \<in> set obj \<and>
            separate_000 obj s = Inr r0 \<longrightarrow>
            map_of (data_000 r0) ''watch'' = Some (chosen (default_state s) ''watch'' v))"
proof -
  let ?s = "default_state s"
  have l: "separate_loop ?s obj \<lparr>computed = [], data = [], watch = def_get obj ''watch''\<rparr> = Inr r"
    using assms by (simp add: separate_def)
  have w: "watch r = def_get obj ''watch''"
    using separate_loop_watch [OF l] by simp
  have k: "map_of (data r) ''watch'' = None \<and> map_of (computed r) ''watch'' = None"
    using separate_loop_skips_watch [OF l] by simp
  have b: "case build r of
            VueInstance d c w \<Rightarrow>
              map_of d ''watch'' = None \<and> map_of c ''watch'' = None \<and> w = def_get obj ''watch''
          | Observable d \<Rightarrow> map_of d ''watch'' = None"
    using w k by (simp add: build_def)
  have f: "\<forall>st. StoreFactory obj s = Inr st \<longrightarrow>
            rwatch st = def_get obj ''watch'' \<and>
            map_of (rdata st) ''watch'' = None \<and> map_of (rcomputed st) ''watch'' = None"
  proof (intro allI impI)
    fix st assume "StoreFactory obj s = Inr st"
    moreover have "separate obj (default_state s) = Inr r"
      using assms by (simp add: separate_def default_state_def)
    ultimately have "rwatch st = watch r \<and> rdata st = data r \<and> rcomputed st = computed r"
      by (auto simp: StoreFactory_def Let_def)
    with w k show "rwatch st = def_get obj ''watch'' \<and>
            map_of (rdata st) ''watch'' = None \<and> map_of (rcomputed st) ''watch'' = None"
      by simp
  qed
  have v: "\<forall>r0 v. distinct (map fst obj) \<and> (''watch'', Stored v) \<in> set obj \<and>
            separate_000 obj s = Inr r0 \<longrightarrow>
            map_of (data_000 r0) ''watch'' = Some (chosen (default_state s) ''watch'' v)"
  proof (intro allI impI)
    fix r0 v
    assume a: "distinct (map fst obj) \<and> (''watch'', Stored v) \<in> set obj \<and>
            separate_000 obj s = Inr r0"
    then have l0: "separate_loop_000 ?s obj \<lparr>computed_000 = [], data_000 = []\<rparr> = Inr r0"
      by (simp add: separate_000_def)
    from a have m: "map_of obj ''watch'' = Some (Stored v)" by simp
    from a have d: "distinct (map fst obj)" by simp
    show "map_of (data_000 r0) ''watch'' = Some (chosen (default_state s) ''watch'' v)"
      using separate_loop_000_data [OF l0 d, of "''watch''"] m by simp
  qed
  from w k b f v show ?thesis by blast
qed

theorem separate_excludes_watch_witness:
  "separate [(''watch'', Stored (VObj [])), (''a'', Stored (VNum 1))] VUndef =
     Inr \<lparr>computed = [], data = [(''a'', VNum 1)], watch = VObj []\<rparr> \<and>
   watch \<lparr>computed = [], data = [(''a'', VNum 1)], watch = VObj []\<rparr> =
     def_get [(''watch'', Stored (VObj [])), (''a'', Stored (VNum 1))] ''watch'' \<and>
   map_of (data \<lparr>computed = [], data = [(''a'', VNum 1)], watch = VObj []\<rparr>) ''watch'' = None \<and>
   map_of (computed \<lparr>computed = [], data = [(''a'', VNum 1)], watch = VObj []\<rparr>) ''watch'' = None"
proof -
  have h: "separate [(''watch'', Stored (VObj [])), (''a'', Stored (VNum 1))] VUndef =
     Inr \<lparr>computed = [], data = [(''a'', VNum 1)], watch = VObj []\<rparr>"
    by (simp add: separate_def default_state_def obj_get_def def_get_def)
  from separate_excludes_watch [OF h] h show ?thesis by simp
qed

theorem separate_000_keeps_watch_counterexample:
  "separate_000 [(''watch'', Stored (VObj [])), (''a'', Stored (VNum 1))] VUndef =
     Inr \<lparr>computed_000 = [], data_000 = [(''watch'', VObj []), (''a'', VNum 1)]\<rparr>"
  by (simp add: separate_000_def default_state_def obj_get_def)



subsection \<open>Objects built by \<^verbatim>\<open>fromPairs\<close> and \<^verbatim>\<open>Object.assign\<close>\<close>

lemma update_fresh: "map_of al k = None \<Longrightarrow> AList.update k v al = al @ [(k, v)]"
  by (induction al) (auto split: if_splits)

lemma assign_append:
  "distinct (map fst src) \<Longrightarrow> \<forall>k \<in> fst ` set src. map_of target k = None \<Longrightarrow>
   assign target src = target @ src"
proof (induction src arbitrary: target)
  case Nil
  then show ?case by (simp add: assign_def)
next
  case (Cons e src)
  obtain k v where e: "e = (k, v)" by (cases e)
  have fresh: "map_of target k = None" using Cons.prems(2) by (simp add: e)
  have d: "distinct (map fst src)" and nk: "k \<notin> fst ` set src"
    using Cons.prems(1) by (auto simp: e)
  have "\<forall>k' \<in> fst ` set src. map_of (target @ [(k, v)]) k' = None"
    using Cons.prems(2) nk by (auto simp: e map_add_def split: option.splits)
  from Cons.IH [OF d this] have "assign (target @ [(k, v)]) src = (target @ [(k, v)]) @ src" .
  moreover have "assign target (e # src) = assign (target @ [(k, v)]) src"
    by (simp add: assign_def e update_fresh [OF fresh])
  ultimately show ?case by (simp add: e)
qed

lemma fromPairs_assign: "fromPairs arr = assign [] arr"
  by (simp add: fromPairs_def assign_def)

lemma fromPairs_distinct: "distinct (map fst arr) \<Longrightarrow> fromPairs arr = arr"
  using assign_append [of arr "[]"] by (simp add: fromPairs_assign)


lemma distinct_filter_keys: "distinct (map fst al) \<Longrightarrow> distinct (map fst (filter P al))"
  by (induction al) auto


subsection \<open>The aggregate\<close>

lemma filterFunctions_obj:
  "distinct (map fst d) \<Longrightarrow>
   filterFunctions h (VObj d) = Inr (filter (\<lambda>(key, val). \<not> isFunction val) d)"
  by (simp add: filterFunctions_def fromPairs_distinct distinct_filter_keys)





lemma module_view_instance:
  "a < length h \<Longrightarrow> h ! a = VueInstance d c w \<Longrightarrow> distinct (map fst d) \<Longrightarrow>
   module_view h (VRef a) = Inr (filter (\<lambda>(key, val). \<not> isFunction val) d)"
  by (simp add: module_view_def filterFunctions_obj)

lemma module_view_observable:
  "a < length h \<Longrightarrow> h ! a = Observable d \<Longrightarrow> distinct (map fst d) \<Longrightarrow>
   \<not> truthy (obj_get d ''$data'') \<Longrightarrow>
   module_view h (VRef a) = Inr (filter (\<lambda>(key, val). \<not> isFunction val) d)"
  by (simp add: module_view_def filterFunctions_def fromPairs_distinct distinct_filter_keys)

text \<open>The aggregate of a root with one field and one module with one field.\<close>

lemma state_of_root_and_one_module:
  assumes "rdata st = [(x, v)]" and "modules st = [(m, VRef a)]" and "a < length (heap st)"
    and "x \<noteq> m"
    and "heap st ! a = VueInstance [(y, w)] c hook \<or>
         (heap st ! a = Observable [(y, w)] \<and> \<not> (y = ''$data'' \<and> truthy w))"
  shows "state st =
     Inr ((if isFunction v then [] else [(x, v)]) @
          [(m, VObj (if isFunction w then [] else [(y, w)]))])"
proof -
  have root: "filterFunctions (heap st) (VObj (rdata st)) =
      Inr (if isFunction v then [] else [(x, v)])"
    by (simp add: filterFunctions_obj assms(1))
  have "\<not> truthy (obj_get [(y, w)] ''$data'')" if "\<not> (y = ''$data'' \<and> truthy w)"
    using that by (auto simp: obj_get_def)
  with assms(5) have "module_view (heap st) (VRef a) =
      Inr (filter (\<lambda>(key, val). \<not> isFunction val) [(y, w)])"
    using module_view_instance [OF assms(3), of "[(y, w)]" c hook]
      module_view_observable [OF assms(3), of "[(y, w)]"] by auto
  then have mods: "module_entries (heap st) (modules st) =
      Inr [(m, VObj (if isFunction w then [] else [(y, w)]))]"
    by (simp add: assms(2))
  show ?thesis
    using assms(4) by (simp add: state_def root mods fromPairs_def assign_def)
qed



text \<open>
  C1. For a root with the field \<^verbatim>\<open>x\<close> and one module \<^verbatim>\<open>m\<close>, \<^verbatim>\<open>state\<close> should be
  \<^verbatim>\<open>{ x: <value>, m: { <the module's fields> } }\<close>. The lemma
  \<open>state_of_root_and_one_module\<close> above shows this for a module that is an instance, and
  for an observable module without a truthy field \<^verbatim>\<open>$data\<close>. An observable module
  with such a field is mistaken for an instance by \<^verbatim>\<open>module.$data || module\<close>: for the
  module definition \<^verbatim>\<open>{ $data: { z: 1 } }\<close> the aggregate is
  \<^verbatim>\<open>{ x: 1, m: { z: 1 } }\<close> and not \<^verbatim>\<open>{ x: 1, m: { $data: { z: 1 } } }\<close>.
\<close>

theorem state_of_observable_with_dollar_data:
  "state (snd (add_single (projr (StoreFactory [(''x'', Stored (VNum 1))] VUndef)) ''m''
        (returning [(''$data'', Stored (VObj [(''z'', VNum 1)]))])))
     = Inr [(''x'', VNum 1), (''m'', VObj [(''z'', VNum 1)])] \<and>
   heap (snd (add_single (projr (StoreFactory [(''x'', Stored (VNum 1))] VUndef)) ''m''
        (returning [(''$data'', Stored (VObj [(''z'', VNum 1)]))])))
     = [Observable [(''$data'', VObj [(''z'', VNum 1)])]]"
  by (simp add: StoreFactory_def separate_def default_state_def obj_get_def def_get_def
      add_single_def root_get_def isReserved_def returning_def build_def attach_def
      root_set_def state_def filterFunctions_def module_view_def fromPairs_def assign_def Let_def)

subsection \<open>Reading and writing properties of the root\<close>

lemma state_only_reads:
  "heap st' = heap st \<Longrightarrow> rdata st' = rdata st \<Longrightarrow> modules st' = modules st \<Longrightarrow>
   state st' = state st"
  by (simp add: state_def split: sum.splits)

lemma root_get_warnings [simp]:
  "root_get (st\<lparr>warnings := w\<rparr>) name = root_get st name"
  by (simp add: root_get_def state_only_reads [of "st\<lparr>warnings := w\<rparr>" st]
      split: option.splits)

lemma root_get_plain_modules:
  "plain_name st name \<Longrightarrow> root_get (st\<lparr>modules := ms\<rparr>) name = root_get st name"
  by (auto simp: root_get_def plain_name_def split: option.splits)

lemma root_get_plain_total: "plain_name st name \<Longrightarrow> \<exists>v. root_get st name = Inr v"
  unfolding root_get_def plain_name_def
  by (cases "map_of (props st) name"; cases "isReserved name";
      cases "map_of (rdata st) name"; cases "map_of (rcomputed st) name"; simp)

lemma root_get_falsy_plain:
  "root_get st name = Inr v \<Longrightarrow> \<not> truthy v \<Longrightarrow> plain_name st name"
  by (auto simp: root_get_def plain_name_def split: option.splits sum.splits if_splits)

lemma plain_name_heap [simp]: "plain_name (st\<lparr>heap := h\<rparr>) name = plain_name st name"
  by (simp add: plain_name_def)

lemma plain_name_root_set:
  "plain_name st name \<Longrightarrow> plain_name (root_set st name v) name"
  by (auto simp: plain_name_def root_set_def update_conv')

lemma root_set_modules [simp]: "modules (root_set st name v) = modules st"
  by (simp add: root_set_def)

lemma root_set_heap [simp]: "heap (root_set st name v) = heap st"
  by (simp add: root_set_def)

lemma root_set_warnings [simp]: "warnings (root_set st name v) = warnings st"
  by (simp add: root_set_def)

text \<open>For a name answered without \<^verbatim>\<open>state\<close>, the property read of \<^const>\<open>attach\<close>
  succeeds, and the registry entry is the value that the root holds under the name
  afterwards.\<close>

lemma attach_plain:
  assumes "plain_name st name"
  shows "\<exists>v st1. attach st name c = (None, st1) \<and> root_get st1 name = Inr v \<and>
           map_of (modules st1) name = Some v \<and> heap st1 = heap st @ [c] \<and>
           warnings st1 = warnings st"
proof -
  let ?s = "root_set (st\<lparr>heap := heap st @ [c]\<rparr>) name (VRef (length (heap st)))"
  have p: "plain_name ?s name"
    using assms by (simp add: plain_name_root_set)
  then obtain v where v: "root_get ?s name = Inr v"
    using root_get_plain_total by blast
  let ?st1 = "?s\<lparr>modules := AList.update name v (modules ?s)\<rparr>"
  have "attach st name c = (None, ?st1)"
    using v by (simp add: attach_def Let_def)
  moreover have "root_get ?st1 name = Inr v"
    using root_get_plain_modules [OF p] v by simp
  moreover have "map_of (modules ?st1) name = Some v"
    by (simp add: update_conv')
  moreover have "heap ?st1 = heap st @ [c]" and "warnings ?st1 = warnings st"
    by simp_all
  ultimately show ?thesis by blast
qed

lemma attach_keeps_modules_on_error:
  "attach st name c = (Some e, st1) \<Longrightarrow> modules st1 = modules st"
  by (auto simp: attach_def Let_def split: sum.splits)

subsection \<open>The three ways a call of the single-name form ends\<close>

lemma add_single_cases:
  "(\<exists>e. add_single st name module = (Some e, st)) \<or>
   (\<exists>v. root_get st name = Inr v \<and> truthy v \<and>
      add_single st name module = (None, st\<lparr>warnings := warnings st @ [warning name]\<rparr>)) \<or>
   (\<exists>v obj sub p. root_get st name = Inr v \<and> \<not> truthy v \<and> module st = Inr obj \<and>
      js_get (overrides st) name = Inr sub \<and> separate obj sub = Inr p \<and>
      add_single st name module = attach st name (build p))"
  by (auto simp: add_single_def split: sum.splits)

lemma add_single_000_cases:
  "(\<exists>e. add_single_000 st name module = (Some e, st)) \<or>
   (\<exists>v. root_get st name = Inr v \<and> truthy v \<and>
      add_single_000 st name module = (None, st\<lparr>warnings := warnings st @ [warning name]\<rparr>)) \<or>
   (\<exists>v obj sub p. root_get st name = Inr v \<and> \<not> truthy v \<and> module st = Inr obj \<and>
      js_get (overrides st) name = Inr sub \<and> separate_000 obj sub = Inr p \<and>
      add_single_000 st name module = attach st name (build_000 p))"
  by (auto simp: add_single_000_def split: sum.splits)

lemma add_single_refuses:
  "root_get st name = Inr v \<Longrightarrow> truthy v \<Longrightarrow>
   add_single st name module = (None, st\<lparr>warnings := warnings st @ [warning name]\<rparr>)"
  by (simp add: add_single_def)

lemma add_single_000_refuses:
  "root_get st name = Inr v \<Longrightarrow> truthy v \<Longrightarrow>
   add_single_000 st name module = (None, st\<lparr>warnings := warnings st @ [warning name]\<rparr>)"
  by (simp add: add_single_000_def)

text \<open>After a call that returned with a container in the registry under the name, the
  root holds a truthy value under the name.\<close>

lemma registered_then_truthy:
  assumes "r = (None, st1)" and "map_of (modules st1) name = Some (VRef a)"
    and "(\<exists>e. r = (Some e, st)) \<or>
         (\<exists>v. root_get st name = Inr v \<and> truthy v \<and>
            r = (None, st\<lparr>warnings := warnings st @ [warning name]\<rparr>)) \<or>
         (\<exists>v. root_get st name = Inr v \<and> \<not> truthy v \<and> r = attach st name c)"
  shows "\<exists>v. root_get st1 name = Inr v \<and> truthy v"
proof -
  from assms(3) consider
      (err) e where "r = (Some e, st)"
    | (refused) v where "root_get st name = Inr v" "truthy v"
        "r = (None, st\<lparr>warnings := warnings st @ [warning name]\<rparr>)"
    | (attached) v where "root_get st name = Inr v" "\<not> truthy v" "r = attach st name c"
    by blast
  then show ?thesis
  proof cases
    case err
    with assms(1) show ?thesis by simp
  next
    case refused
    with assms(1) show ?thesis by auto
  next
    case attached
    from root_get_falsy_plain [OF attached(1,2)] have "plain_name st name" .
    from attach_plain [OF this, of c] attached(3) assms(1,2)
    show ?thesis by auto
  qed
qed

subsection \<open>Claims about \<^verbatim>\<open>add\<close>\<close>



text \<open>
  C4. When a call \<^verbatim>\<open>add(m, factory)\<close> has returned and a module container is
  registered under \<^verbatim>\<open>m\<close>, a second call with that name attaches nothing: it returns
  the store as the first call left it (registry, containers and root instance), with
  one more warning. Both variants behave so.
\<close>

theorem add_twice_is_noop:
  assumes "map_of (modules st1) m = Some (VRef a)"
  shows "(add_single st m module = (None, st1) \<longrightarrow>
            add_single st1 m module' =
              (None, st1\<lparr>warnings := warnings st1 @ [warning m]\<rparr>)) \<and>
         (add_single_000 st m module = (None, st1) \<longrightarrow>
            add_single_000 st1 m module' =
              (None, st1\<lparr>warnings := warnings st1 @ [warning m]\<rparr>))"
proof (intro conjI impI)
  assume r: "add_single st m module = (None, st1)"
  from add_single_cases [of st m module]
  obtain c where "(\<exists>e. add_single st m module = (Some e, st)) \<or>
         (\<exists>v. root_get st m = Inr v \<and> truthy v \<and>
            add_single st m module = (None, st\<lparr>warnings := warnings st @ [warning m]\<rparr>)) \<or>
         (\<exists>v. root_get st m = Inr v \<and> \<not> truthy v \<and> add_single st m module = attach st m c)"
    by blast
  from registered_then_truthy [OF r assms this]
  obtain v where "root_get st1 m = Inr v" "truthy v" by blast
  then show "add_single st1 m module' = (None, st1\<lparr>warnings := warnings st1 @ [warning m]\<rparr>)"
    by (rule add_single_refuses)
next
  assume r: "add_single_000 st m module = (None, st1)"
  from add_single_000_cases [of st m module]
  obtain c where "(\<exists>e. add_single_000 st m module = (Some e, st)) \<or>
         (\<exists>v. root_get st m = Inr v \<and> truthy v \<and>
            add_single_000 st m module = (None, st\<lparr>warnings := warnings st @ [warning m]\<rparr>)) \<or>
         (\<exists>v. root_get st m = Inr v \<and> \<not> truthy v \<and> add_single_000 st m module = attach st m c)"
    by blast
  from registered_then_truthy [OF r assms this]
  obtain v where "root_get st1 m = Inr v" "truthy v" by blast
  then show "add_single_000 st1 m module' = (None, st1\<lparr>warnings := warnings st1 @ [warning m]\<rparr>)"
    by (rule add_single_000_refuses)
qed

theorem add_twice_is_noop_witness:
  "add_single \<lparr>overrides = VObj [], ctx = VUndef, rdata = [(''x'', VNum 1)], rcomputed = [],
      rwatch = VUndef, props = [], modules = [], heap = [], warnings = []\<rparr> ''m''
      (returning [(''y'', Stored (VNum 2))])
   = (None, \<lparr>overrides = VObj [], ctx = VUndef, rdata = [(''x'', VNum 1)], rcomputed = [],
      rwatch = VUndef, props = [(''m'', VRef 0)], modules = [(''m'', VRef 0)],
      heap = [Observable [(''y'', VNum 2)]], warnings = []\<rparr>) \<and>
   add_single \<lparr>overrides = VObj [], ctx = VUndef, rdata = [(''x'', VNum 1)], rcomputed = [],
      rwatch = VUndef, props = [(''m'', VRef 0)], modules = [(''m'', VRef 0)],
      heap = [Observable [(''y'', VNum 2)]], warnings = []\<rparr> ''m''
      (returning [(''y'', Stored (VNum 2))])
   = (None, \<lparr>overrides = VObj [], ctx = VUndef, rdata = [(''x'', VNum 1)], rcomputed = [],
      rwatch = VUndef, props = [(''m'', VRef 0)], modules = [(''m'', VRef 0)],
      heap = [Observable [(''y'', VNum 2)]],
      warnings = [''Module with name m already added!'']\<rparr>)"
proof -
  let ?st = "\<lparr>overrides = VObj [], ctx = VUndef, rdata = [(''x'', VNum 1)], rcomputed = [],
      rwatch = VUndef, props = [], modules = [], heap = [], warnings = []\<rparr>"
  let ?st1 = "\<lparr>overrides = VObj [], ctx = VUndef, rdata = [(''x'', VNum 1)], rcomputed = [],
      rwatch = VUndef, props = [(''m'', VRef 0)], modules = [(''m'', VRef 0)],
      heap = [Observable [(''y'', VNum 2)]], warnings = []\<rparr>"
  have h1: "map_of (modules ?st1) ''m'' = Some (VRef 0)" by simp
  have h2: "add_single ?st ''m'' (returning [(''y'', Stored (VNum 2))]) = (None, ?st1)"
    by (simp add: add_single_def root_get_def isReserved_def returning_def obj_get_def
        separate_def default_state_def def_get_def build_def attach_def root_set_def Let_def)
  from add_twice_is_noop [OF h1, of ?st "returning [(''y'', Stored (VNum 2))]"
      "returning [(''y'', Stored (VNum 2))]"] h2
  show ?thesis by (simp add: warning_def)
qed

lemma once_per_entry_raised:
  "foldl (\<lambda>(raised, s) (name, module).
            case raised of Some e \<Rightarrow> (Some e, s) | None \<Rightarrow> single s name module)
         (Some e, st) ms = (Some e, st)"
  by (induction ms) auto

lemma add_entries_once_per_entry: "add_entries st ms = once_per_entry add_single st ms"
proof (induction ms arbitrary: st)
  case Nil
  then show ?case by (simp add: once_per_entry_def)
next
  case (Cons e ms)
  obtain name module where e: "e = (name, module)" by (cases e)
  obtain raised st' where r: "add_single st name module = (raised, st')"
    by (cases "add_single st name module")
  show ?case
  proof (cases raised)
    case None
    with r Cons.IH [of st'] show ?thesis by (simp add: e once_per_entry_def)
  next
    case (Some err)
    with r show ?thesis by (simp add: e once_per_entry_def once_per_entry_raised)
  qed
qed

lemma add_entries_000_once_per_entry:
  "add_entries_000 st ms = once_per_entry add_single_000 st ms"
proof (induction ms arbitrary: st)
  case Nil
  then show ?case by (simp add: once_per_entry_def)
next
  case (Cons e ms)
  obtain name module where e: "e = (name, module)" by (cases e)
  obtain raised st' where r: "add_single_000 st name module = (raised, st')"
    by (cases "add_single_000 st name module")
  show ?case
  proof (cases raised)
    case None
    with r Cons.IH [of st'] show ?thesis by (simp add: e once_per_entry_def)
  next
    case (Some err)
    with r show ?thesis by (simp add: e once_per_entry_def once_per_entry_raised)
  qed
qed

lemma add_entries_append:
  "add_entries st (ms1 @ ms2) =
     (case add_entries st ms1 of (None, st1) \<Rightarrow> add_entries st1 ms2 | (Some e, st1) \<Rightarrow> (Some e, st1))"
  by (induction ms1 arbitrary: st) (auto split: prod.splits option.splits)

lemma add_entries_000_append:
  "add_entries_000 st (ms1 @ ms2) =
     (case add_entries_000 st ms1 of
        (None, st1) \<Rightarrow> add_entries_000 st1 ms2 | (Some e, st1) \<Rightarrow> (Some e, st1))"
  by (induction ms1 arbitrary: st) (auto split: prod.splits option.splits)

lemma add_single_error_modules:
  "add_single st name module = (Some e, st2) \<Longrightarrow> modules st2 = modules st"
proof -
  assume r: "add_single st name module = (Some e, st2)"
  from add_single_cases [of st name module] consider
      "st2 = st" | p where "attach st name (build p) = (Some e, st2)"
    unfolding r by auto
  then show ?thesis
    by cases (simp_all add: attach_keeps_modules_on_error)
qed

lemma add_single_000_error_modules:
  "add_single_000 st name module = (Some e, st2) \<Longrightarrow> modules st2 = modules st"
proof -
  assume r: "add_single_000 st name module = (Some e, st2)"
  from add_single_000_cases [of st name module] consider
      "st2 = st" | p where "attach st name (build_000 p) = (Some e, st2)"
    unfolding r by auto
  then show ?thesis
    by cases (simp_all add: attach_keeps_modules_on_error)
qed

text \<open>
  C7. With an object of factories as first argument, \<^verbatim>\<open>add\<close> does what calling the
  single-name form once per entry, in entry order, does. There is no rollback: when the
  call for one entry raises, the bulk call ends with that exception and with the store
  as that call left it, in which the registry is the one built by the entries before.
  Both variants behave so.
\<close>

theorem add_bulk_is_single_per_entry:
  "add st (Modules ms) = once_per_entry add_single st ms \<and>
   add_000 st (Modules ms) = once_per_entry add_single_000 st ms \<and>
   (\<forall>st1 e st2. add st (Modules ms1) = (None, st1) \<and>
      add st1 (Name n f) = (Some e, st2) \<longrightarrow>
      add st (Modules (ms1 @ (n, f) # ms2)) = (Some e, st2) \<and> modules st2 = modules st1) \<and>
   (\<forall>st1 e st2. add_000 st (Modules ms1) = (None, st1) \<and>
      add_000 st1 (Name n f) = (Some e, st2) \<longrightarrow>
      add_000 st (Modules (ms1 @ (n, f) # ms2)) = (Some e, st2) \<and> modules st2 = modules st1)"
proof (intro conjI allI impI)
  show "add st (Modules ms) = once_per_entry add_single st ms"
    by (simp add: add_entries_once_per_entry)
  show "add_000 st (Modules ms) = once_per_entry add_single_000 st ms"
    by (simp add: add_entries_000_once_per_entry)
next
  fix st1 e st2
  assume a: "add st (Modules ms1) = (None, st1) \<and> add st1 (Name n f) = (Some e, st2)"
  then show "add st (Modules (ms1 @ (n, f) # ms2)) = (Some e, st2)"
    by (simp add: add_entries_append)
  from a show "modules st2 = modules st1"
    using add_single_error_modules [of st1 n f e st2] by simp
next
  fix st1 e st2
  assume a: "add_000 st (Modules ms1) = (None, st1) \<and> add_000 st1 (Name n f) = (Some e, st2)"
  then show "add_000 st (Modules (ms1 @ (n, f) # ms2)) = (Some e, st2)"
    by (simp add: add_entries_000_append)
  from a show "modules st2 = modules st1"
    using add_single_000_error_modules [of st1 n f e st2] by simp
qed

theorem add_bulk_is_single_per_entry_witness:
  "add \<lparr>overrides = VObj [], ctx = VUndef, rdata = [(''x'', VNum 1)], rcomputed = [],
      rwatch = VUndef, props = [], modules = [], heap = [], warnings = []\<rparr>
     (Modules ([(''m1'', returning [(''y'', Stored (VNum 2))])] @
        (''m2'', \<lambda>st. Inl (Thrown VNull)) # [(''m3'', returning [])]))
   = (Some (Thrown VNull),
      \<lparr>overrides = VObj [], ctx = VUndef, rdata = [(''x'', VNum 1)], rcomputed = [],
      rwatch = VUndef, props = [(''m1'', VRef 0)], modules = [(''m1'', VRef 0)],
      heap = [Observable [(''y'', VNum 2)]], warnings = []\<rparr>)"
proof -
  let ?st = "\<lparr>overrides = VObj [], ctx = VUndef, rdata = [(''x'', VNum 1)], rcomputed = [],
      rwatch = VUndef, props = [], modules = [], heap = [], warnings = []\<rparr>"
  let ?st1 = "\<lparr>overrides = VObj [], ctx = VUndef, rdata = [(''x'', VNum 1)], rcomputed = [],
      rwatch = VUndef, props = [(''m1'', VRef 0)], modules = [(''m1'', VRef 0)],
      heap = [Observable [(''y'', VNum 2)]], warnings = []\<rparr>"
  have h1: "add ?st (Modules [(''m1'', returning [(''y'', Stored (VNum 2))])]) = (None, ?st1)"
    by (simp add: add_single_def root_get_def isReserved_def returning_def obj_get_def
        separate_def default_state_def def_get_def build_def attach_def root_set_def Let_def)
  have h2: "add ?st1 (Name ''m2'' (\<lambda>st. Inl (Thrown VNull))) = (Some (Thrown VNull), ?st1)"
    by (simp add: add_single_def root_get_def isReserved_def)
  from add_bulk_is_single_per_entry
    [of ?st _ "[(''m1'', returning [(''y'', Stored (VNum 2))])]" "''m2''"
      "\<lambda>st. Inl (Thrown VNull)" "[(''m3'', returning [])]"] h1 h2
  show ?thesis by blast
qed

subsection \<open>The container of a module\<close>














end
